theory Spec2Isabelle
  imports Main "HOL-Library.Word" "HOL-Library.Signed_Division" "HOL-Library.Multiset"
begin

section \<open>Go values: errors, outcomes, machine integers\<close>

text \<open>
  A Go \<^verbatim>\<open>error\<close> value. \<open>EOF\<close> is \<^verbatim>\<open>io.EOF\<close>; \<open>MultiError\<close> is the aggregate built by
  \<^verbatim>\<open>multierr.Append\<close>. A nil error is \<open>None :: error option\<close>.
\<close>

datatype error = Error string | EOF | MultiError "error list"

text \<open>
  What a call of a Go function does: it returns, it panics (\<^verbatim>\<open>template.Must\<close>, an index
  out of range), or it never returns (a receive on a stream or channel that never
  delivers).
\<close>

datatype 'a outcome = Returns 'a | Panics string | Blocks

definition obind :: "'a outcome \<Rightarrow> ('a \<Rightarrow> 'b outcome) \<Rightarrow> 'b outcome" where
  "obind m f = (case m of Returns x \<Rightarrow> f x | Panics p \<Rightarrow> Panics p | Blocks \<Rightarrow> Blocks)"

type_synonym int64 = "64 word"

text \<open>A \<^verbatim>\<open>*dynamic.Message\<close>, and a \<^verbatim>\<open>map[string]string\<close> (\<open>None\<close> is the nil map).\<close>

datatype message = Message string

type_synonym gomap = "(string \<times> string) list option"

definition map_len :: "gomap \<Rightarrow> nat" where
  "map_len m = (case m of None \<Rightarrow> 0 | Some kvs \<Rightarrow> length kvs)"

section \<open>call\_template\_data.go\<close>

record callTemplateData =
  WorkerID :: string
  RequestNumber :: int64
  FullyQualifiedName :: string
  MethodName :: string
  ServiceName :: string
  InputName :: string
  OutputName :: string
  IsClientStreaming :: bool
  IsServerStreaming :: bool
  Timestamp :: string
  TimestampUnix :: int64

subsection \<open>The functions of the template's FuncMap\<close>

text \<open>
  \<^verbatim>\<open>rand.Intn(n)\<close> returns some \<open>r\<close> with \<open>0 \<le> r < n\<close> (all call sites below have
  \<open>0 < n\<close>). The pseudo-random source's draw is an argument \<open>src\<close>; every result the
  library can give arises for \<open>src = r\<close>, and no other result arises.
\<close>

definition Intn :: "nat \<Rightarrow> nat \<Rightarrow> nat" where
  "Intn src n = src mod n"

text \<open>
  The slice expression \<^verbatim>\<open>xs[lo:hi]\<close>, which panics outside \<open>lo \<le> hi \<le> cap\<close>; the
  capacity is taken to be the length.
\<close>

definition slice_expr :: "'a list \<Rightarrow> nat \<Rightarrow> nat \<Rightarrow> 'a list outcome" where
  "slice_expr xs lo hi =
     (if lo \<le> hi \<and> hi \<le> length xs then Returns (take (hi - lo) (drop lo xs))
      else Panics ''slice bounds out of range'')"

text \<open>
  \<^verbatim>\<open>RandomSlice\<close>; \<open>src1\<close> and \<open>src2\<close> are the draws behind the two calls of
  \<^verbatim>\<open>rand.Intn(len(values))\<close>. \<open>Inl\<close> is the returned error.
\<close>

definition RandomSlice :: "nat \<Rightarrow> nat \<Rightarrow> string list \<Rightarrow> (error + string list) outcome" where
  "RandomSlice src1 src2 values =
     (if length values < 1 then Returns (Inl (Error ''values is empty''))
      else
        let start = Intn src1 (length values);
            end = Intn src2 (length values);
            (start, end) =
              (if start > end then (end, start)
               else if start = end then
                 (if start = 0 then (start, end + 1) else (start - 1, end))
               else (start, end))
        in obind (slice_expr values start end) (\<lambda>r. Returns (Inr r)))"

text \<open>
  \<^verbatim>\<open>RoundRobin\<close>: \<^verbatim>\<open>values[td.RequestNumber%int64(len(values))]\<close>. Go's \<^verbatim>\<open>%\<close> truncates
  towards zero (\<open>smod\<close>), so a negative request number gives a negative index, and the
  index expression panics.
\<close>

definition RoundRobin :: "callTemplateData \<Rightarrow> string list \<Rightarrow> (error + string) outcome" where
  "RoundRobin td values =
     (if length values < 1 then Returns (Inl (Error ''values is empty''))
      else
        let i = sint (RequestNumber td) smod int (length values)
        in if 0 \<le> i \<and> i < int (length values) then Returns (Inr (values ! nat i))
           else Panics ''index out of range'')"

subsection \<open>Shuffle, on a store of backing arrays\<close>

text \<open>
  A Go slice is a window (\<open>off\<close>, \<open>len\<close>) on a backing array that it shares with every
  other slice made from the same array. The store maps the address of a backing array
  to its contents; \<open>elems\<close> reads what a holder of the slice sees.
\<close>

type_synonym addr = nat

type_synonym store = "addr \<Rightarrow> string list"

record slice =
  arr :: addr
  off :: nat
  len :: nat

definition elems :: "store \<Rightarrow> slice \<Rightarrow> string list" where
  "elems st s = take (len s) (drop (off s) (st (arr s)))"

definition slice_ok :: "store \<Rightarrow> slice \<Rightarrow> bool" where
  "slice_ok st s = (off s + len s \<le> length (st (arr s)))"

text \<open>
  The closure handed to \<^verbatim>\<open>rand.Shuffle\<close>:
  \<^verbatim>\<open>func(i, j int) { values[i], values[j] = values[j], values[i] }\<close>.
\<close>

definition swap :: "store \<Rightarrow> slice \<Rightarrow> nat \<Rightarrow> nat \<Rightarrow> store outcome" where
  "swap st values i j =
     (if i < len values \<and> j < len values then
        let a = st (arr values);
            vi = a ! (off values + i);
            vj = a ! (off values + j)
        in Returns (st(arr values := a[off values + i := vj, off values + j := vi]))
      else Panics ''index out of range'')"

text \<open>
  \<^verbatim>\<open>rand.Shuffle(n, swap)\<close> calls \<open>swap\<close> on a sequence of index pairs below \<open>n\<close>; the
  sequence that the pseudo-random source chose is the argument \<open>swaps\<close>.
\<close>

fun rand_Shuffle :: "store \<Rightarrow> slice \<Rightarrow> (nat \<times> nat) list \<Rightarrow> store outcome" where
  "rand_Shuffle st values [] = Returns st"
| "rand_Shuffle st values ((i, j) # swaps) =
     obind (swap st values i j) (\<lambda>st'. rand_Shuffle st' values swaps)"

text \<open>\<^verbatim>\<open>Shuffle\<close> returns the slice it was given, with the store as the swaps left it.\<close>

definition Shuffle :: "(nat \<times> nat) list \<Rightarrow> store \<Rightarrow> slice \<Rightarrow> (slice \<times> store) outcome" where
  "Shuffle swaps st values =
     obind (rand_Shuffle st values swaps) (\<lambda>st'. Returns (values, st'))"

subsection \<open>The collaborators outside the repository\<close>

text \<open>
  The calls that the worker makes on its collaborators, in the order it makes them.
  The request metadata attached to the context travels with the event that opens a call.
\<close>

datatype event =
    CreatePayloadsFromJSON string
  | CreatePayloadsFromBin string
  | Println string
  | InvokeRpc gomap message
  | InvokeRpcClientStream gomap
  | InvokeRpcServerStream gomap message
  | InvokeRpcBidiStream gomap
  | SendMsg message
  | RecvMsg
  | CloseAndReceive
  | CloseSend

text \<open>What the worker reads of its \<^verbatim>\<open>*desc.MethodDescriptor\<close>.\<close>

record methodDescriptor =
  GetFullyQualifiedName :: string
  GetName :: string
  GetServiceName :: string
  GetInputTypeName :: string
  GetOutputTypeName :: string
  mtd_IsClientStreaming :: bool
  mtd_IsServerStreaming :: bool

text \<open>
  The libraries and the environment, as parameters:
  \<^item> \<open>template_Parse\<close> is \<^verbatim>\<open>template.New(...).Funcs(...).Parse(data)\<close>: the parse error,
    if any; the parsed template is identified with its source text;
  \<^item> \<open>template_Execute\<close> is \<^verbatim>\<open>t.Execute(&tpl, td)\<close>: the buffer as execution left it,
    and the error;
  \<^item> \<open>json_Unmarshal\<close> is \<^verbatim>\<open>json.Unmarshal(input, &mdMap)\<close> on a nil \<open>mdMap\<close>;
  \<^item> \<open>createPayloadsFromJSON\<close> and \<open>createPayloadsFromBin\<close> decode for the worker's
    method (\<open>Inr None\<close> is a nil slice);
  \<^item> \<open>time_Now\<close> is the clock read for a request number: the RFC3339 text and the
    unix time;
  \<^item> \<open>stub\<close> is the transport: the error it answers to the last call of the log,
    given the method that the worker hands to each entry point and all calls before
    it;
  \<^item> \<open>bidi_RecvMsg\<close> is what the \<open>k\<close>-th \<^verbatim>\<open>RecvMsg\<close> of the receiving goroutine gets
    on the bidirectional stream opened at the given log;
  \<^item> \<open>stopCh\<close> says whether the stop channel is ready at the \<^verbatim>\<open>select\<close> of iteration
    \<open>i\<close>.
\<close>

record env =
  template_Parse :: "string \<Rightarrow> error option"
  template_Execute :: "string \<Rightarrow> callTemplateData \<Rightarrow> string \<times> error option"
  json_Unmarshal :: "string \<Rightarrow> error + gomap"
  createPayloadsFromJSON :: "string \<Rightarrow> error + message list option"
  createPayloadsFromBin :: "string \<Rightarrow> error + message list option"
  time_Now :: "int64 \<Rightarrow> string \<times> int64"
  stub :: "methodDescriptor \<Rightarrow> event list \<Rightarrow> error option"
  bidi_RecvMsg :: "event list \<Rightarrow> nat \<Rightarrow> error option"
  stopCh :: "nat \<Rightarrow> bool"

subsection \<open>execute, executeData, executeMetadata\<close>

text \<open>
  \<^verbatim>\<open>template.Must\<close> panics when \<^verbatim>\<open>Parse\<close> returned an error; otherwise \<open>execute\<close> returns
  the buffer and the error of \<^verbatim>\<open>Execute\<close>.
\<close>

definition execute :: "env \<Rightarrow> callTemplateData \<Rightarrow> string \<Rightarrow> (string \<times> error option) outcome" where
  "execute E td data =
     (case template_Parse E data of
        Some e \<Rightarrow> Panics ''template.Must''
      | None \<Rightarrow> Returns (template_Execute E data td))"

definition executeData :: "env \<Rightarrow> callTemplateData \<Rightarrow> string \<Rightarrow> (string \<times> error option) outcome" where
  "executeData E td data =
     (if length data > 0 then
        obind (execute E td data) (\<lambda>(tpl, err).
          let input = (if err = None then tpl else data)
          in Returns (input, None))
      else Returns ([], None))"

text \<open>
  \<open>executeMetadata\<close> returns \<^verbatim>\<open>(nil, err)\<close>, here \<open>Inl err\<close>, or \<^verbatim>\<open>(&mdMap, nil)\<close>, here
  \<open>Inr mdMap\<close>, where \<open>mdMap\<close> is still the nil map when the input was empty.
\<close>

definition executeMetadata :: "env \<Rightarrow> callTemplateData \<Rightarrow> string \<Rightarrow> (error + gomap) outcome" where
  "executeMetadata E td metadata =
     (if length metadata > 0 then
        obind (execute E td metadata) (\<lambda>(tpl, err).
          let input = (if err = None then tpl else metadata)
          in case json_Unmarshal E input of
               Inl e \<Rightarrow> Returns (Inl e)
             | Inr mdMap \<Rightarrow> Returns (Inr mdMap))
      else Returns (Inr None))"

section \<open>worker.go\<close>

text \<open>
  \<^verbatim>\<open>newCallTemplateData\<close>. It also reseeds the global pseudo-random source from the
  clock; the draws of that source are arguments of the functions that use them.
\<close>

definition newCallTemplateData :: "env \<Rightarrow> methodDescriptor \<Rightarrow> string \<Rightarrow> int64 \<Rightarrow> callTemplateData" where
  "newCallTemplateData E m wid reqNum =
     (let now = time_Now E reqNum in
      \<lparr>WorkerID = wid,
       RequestNumber = reqNum,
       FullyQualifiedName = GetFullyQualifiedName m,
       MethodName = GetName m,
       ServiceName = GetServiceName m,
       InputName = GetInputTypeName m,
       OutputName = GetOutputTypeName m,
       IsClientStreaming = mtd_IsClientStreaming m,
       IsServerStreaming = mtd_IsServerStreaming m,
       Timestamp = fst now,
       TimestampUnix = snd now\<rparr>)"

text \<open>
  The fields of \<^verbatim>\<open>RunConfig\<close> that decide what the worker does. The fields \<^verbatim>\<open>qps\<close>,
  \<^verbatim>\<open>timeout\<close> and \<^verbatim>\<open>streamInterval\<close> only delay a call or bound its duration: waiting
  for a tick always ends, and time is not part of this model.
\<close>

record RunConfig =
  binary :: bool
  dryRun :: bool
  data :: string
  metadata :: string

text \<open>
  The worker. \<open>reqCounter\<close> is the cell behind \<^verbatim>\<open>w.reqCounter\<close>; \<open>trace\<close> is not a field
  of the source: it records the calls made on the collaborators, oldest first.
\<close>

record worker =
  mtd :: methodDescriptor
  config :: RunConfig
  reqCounter :: int64
  nReq :: int
  workerID :: string
  cachedMessages :: "message list option"
  arrayJSONData :: "string list"
  trace :: "event list"

definition logged :: "worker \<Rightarrow> event \<Rightarrow> worker" where
  "logged w ev = w\<lparr>trace := trace w @ [ev]\<rparr>"

text \<open>
  A call on the transport: the event is recorded, and the stub answers. The worker
  passes \<^verbatim>\<open>w.mtd\<close> to every entry point of the stub.
\<close>

definition call :: "env \<Rightarrow> worker \<Rightarrow> event \<Rightarrow> error option \<times> worker" where
  "call E w ev = (let tr = trace w @ [ev] in (stub E (mtd w) tr, w\<lparr>trace := tr\<rparr>))"

text \<open>\<^verbatim>\<open>len\<close> of a slice that may be nil, and the index expression \<^verbatim>\<open>xs[i]\<close>.\<close>

definition slice_len :: "'a list option \<Rightarrow> nat" where
  "slice_len xs = (case xs of None \<Rightarrow> 0 | Some ys \<Rightarrow> length ys)"

definition index_expr :: "'a list \<Rightarrow> int \<Rightarrow> 'a outcome" where
  "index_expr xs i =
     (if 0 \<le> i \<and> i < int (length xs) then Returns (xs ! nat i)
      else Panics ''index out of range'')"

subsection \<open>getMessages\<close>

definition getMessages ::
  "env \<Rightarrow> worker \<Rightarrow> callTemplateData \<Rightarrow> string \<Rightarrow> ((error + message list option) \<times> worker) outcome" where
  "getMessages E w ctd inputData =
     (if cachedMessages w \<noteq> None then Returns (Inr (cachedMessages w), w)
      else if \<not> binary (config w) then
        obind (executeData E ctd inputData) (\<lambda>(d, err).
          case err of
            Some e \<Rightarrow> Returns (Inl e, w)
          | None \<Rightarrow>
              let w1 = (if dryRun (config w) then logged w (Println d) else w);
                  w2 = logged w1 (CreatePayloadsFromJSON d)
              in case createPayloadsFromJSON E d of
                   Inl e \<Rightarrow> Returns (Inl e, w2)
                 | Inr inputs \<Rightarrow> Returns (Inr inputs, w2))
      else
        let w1 = logged w (CreatePayloadsFromBin inputData)
        in case createPayloadsFromBin E inputData of
             Inl e \<Rightarrow> Returns (Inl e, w1)
           | Inr inputs \<Rightarrow> Returns (Inr inputs, w1\<lparr>cachedMessages := inputs\<rparr>))"

subsection \<open>The streaming calls\<close>

text \<open>
  The loop of \<^verbatim>\<open>makeClientStreamingRequest\<close>, entered with \<^verbatim>\<open>err == nil\<close>. It leaves
  through a \<^verbatim>\<open>break\<close> after \<^verbatim>\<open>CloseAndReceive\<close>, or through its condition when
  \<^verbatim>\<open>SendMsg\<close> returned an error other than \<^verbatim>\<open>io.EOF\<close>.
\<close>

function clientStreamLoop :: "env \<Rightarrow> worker \<Rightarrow> message list option \<Rightarrow> nat \<Rightarrow> worker outcome" where
  "clientStreamLoop E w input counter =
     (let inputLen = slice_len input in
      if input = None \<or> inputLen = 0 then Returns (snd (call E w CloseAndReceive))
      else if counter = inputLen then Returns (snd (call E w CloseAndReceive))
      else if counter < inputLen then
        (case call E w (SendMsg (the input ! counter)) of (err, w1) \<Rightarrow>
           if err = Some EOF then Returns (snd (call E w1 CloseAndReceive))
           else if err = None then clientStreamLoop E w1 input (counter + 1)
           else Returns w1)
      else Panics ''index out of range'')"
  by pat_completeness auto
termination
  by (relation "measure (\<lambda>(E, w, input, counter). slice_len input - counter)") auto

definition makeClientStreamingRequest ::
  "env \<Rightarrow> worker \<Rightarrow> gomap \<Rightarrow> message list option \<Rightarrow> (error option \<times> worker) outcome" where
  "makeClientStreamingRequest E w ctx input =
     (case call E w (InvokeRpcClientStream ctx) of (err, w1) \<Rightarrow>
        if err = None then
          obind (clientStreamLoop E w1 input 0) (\<lambda>w2. Returns (None, w2))
        else Returns (None, w1))"

text \<open>
  The loop of \<^verbatim>\<open>makeServerStreamingRequest\<close> receives until \<^verbatim>\<open>RecvMsg\<close> returns an
  error; \<^verbatim>\<open>io.EOF\<close> becomes nil. On a stream that never ends it does not return: \<open>None\<close>.
\<close>

partial_function (option) serverStreamLoop :: "env \<Rightarrow> worker \<Rightarrow> (error option \<times> worker) option" where
  "serverStreamLoop E w =
     (case call E w RecvMsg of (err, w1) \<Rightarrow>
        (case err of
           None \<Rightarrow> serverStreamLoop E w1
         | Some e \<Rightarrow> Some (if e = EOF then None else Some e, w1)))"

declare serverStreamLoop.simps [code]

definition makeServerStreamingRequest ::
  "env \<Rightarrow> worker \<Rightarrow> gomap \<Rightarrow> message \<Rightarrow> (error option \<times> worker) outcome" where
  "makeServerStreamingRequest E w ctx input =
     (case call E w (InvokeRpcServerStream ctx input) of (err, w1) \<Rightarrow>
        if err = None then
          (case serverStreamLoop E w1 of None \<Rightarrow> Blocks | Some r \<Rightarrow> Returns r)
        else Returns (err, w1))"

text \<open>The sending loop of \<^verbatim>\<open>makeBidiRequest\<close>, entered with \<^verbatim>\<open>err == nil\<close>.\<close>

function bidiSendLoop :: "env \<Rightarrow> worker \<Rightarrow> message list \<Rightarrow> nat \<Rightarrow> (error option \<times> worker) outcome" where
  "bidiSendLoop E w input counter =
     (let inputLen = length input in
      if counter = inputLen then Returns (None, snd (call E w CloseSend))
      else if counter < inputLen then
        (case call E w (SendMsg (input ! counter)) of (err, w1) \<Rightarrow>
           if err = None then bidiSendLoop E w1 input (counter + 1)
           else Returns (err, w1))
      else Panics ''index out of range'')"
  by pat_completeness auto
termination
  by (relation "measure (\<lambda>(E, w, input, counter). length input - counter)") auto

text \<open>
  The receiving goroutine of \<^verbatim>\<open>makeBidiRequest\<close> closes \<^verbatim>\<open>recvDone\<close> at the first
  \<^verbatim>\<open>RecvMsg\<close> that returns an error. \<open>recvDone recv k\<close> is the number of that
  \<^verbatim>\<open>RecvMsg\<close>, counted from \<open>k\<close>; it is \<open>None\<close> when every \<^verbatim>\<open>RecvMsg\<close> succeeds, and then
  \<^verbatim>\<open><-recvDone\<close> never returns. The goroutine's calls run beside the sender's and are
  not entered in the trace.
\<close>

partial_function (option) recvDone :: "(nat \<Rightarrow> error option) \<Rightarrow> nat \<Rightarrow> nat option" where
  "recvDone recv k =
     (case recv k of
        None \<Rightarrow> recvDone recv (Suc k)
      | Some e \<Rightarrow> Some k)"

declare recvDone.simps [code]

definition makeBidiRequest ::
  "env \<Rightarrow> worker \<Rightarrow> gomap \<Rightarrow> message list option \<Rightarrow> (error option \<times> worker) outcome" where
  "makeBidiRequest E w ctx input =
     (case call E w (InvokeRpcBidiStream ctx) of (err, w1) \<Rightarrow>
        if err \<noteq> None then Returns (err, w1)
        else if input = None \<or> slice_len input = 0 then
          Returns (None, snd (call E w1 CloseSend))
        else
          obind (bidiSendLoop E w1 (the input) 0) (\<lambda>(err, w2).
            if err = None then
              (case recvDone (bidi_RecvMsg E (trace w1)) 0 of
                 None \<Rightarrow> Blocks
               | Some k \<Rightarrow> Returns (None, w2))
            else Returns (None, w2)))"

subsection \<open>makeRequest\<close>

text \<open>
  The second half of \<^verbatim>\<open>makeRequest\<close>, from the comment \<^verbatim>\<open>RPC errors are handled via stats
  handler\<close> to the end, for the request number \<open>reqNum\<close>, the request metadata \<open>reqMD\<close> of
  the context and the resolved \<open>inputs\<close>. The four dispatch statements follow one another
  as in the source: no \<^verbatim>\<open>else\<close>, no \<^verbatim>\<open>return\<close> between them. The results of the four
  calls are discarded; the final \<^verbatim>\<open>return err\<close> returns the nil error that
  \<open>executeMetadata\<close> left in \<^verbatim>\<open>err\<close>.
\<close>

definition dispatch ::
  "env \<Rightarrow> worker \<Rightarrow> int64 \<Rightarrow> gomap \<Rightarrow> message list option \<Rightarrow> (error option \<times> worker) outcome" where
  "dispatch E w reqNum reqMD inputs =
     (let cs = mtd_IsClientStreaming (mtd w);
          ss = mtd_IsServerStreaming (mtd w)
      in
      obind (if cs \<and> ss then makeBidiRequest E w reqMD inputs
             else Returns (None, w)) (\<lambda>(_, w2).
      obind (if cs then makeClientStreamingRequest E w2 reqMD inputs
             else Returns (None, w2)) (\<lambda>(_, w3).
      let inputsLen = slice_len inputs in
      if inputsLen = 0 then
        Returns (Some (Error ''no data provided for request''), w3)
      else
        obind (index_expr (the inputs) (sint (reqNum - 1) smod int inputsLen)) (\<lambda>input.
        obind (if ss then makeServerStreamingRequest E w3 reqMD input
               else Returns (None, w3)) (\<lambda>(_, w4).
        Returns (None, snd (call E w4 (InvokeRpc reqMD input))))))))"

text \<open>
  \<^verbatim>\<open>makeRequest\<close>: the request number, the context, the messages, the dry-run exit, the
  metadata (\<open>reqMD\<close> is attached to the context when the expanded map is not empty), and
  the dispatch. The timeout of the context bounds the duration of the calls only.
\<close>

definition makeRequest :: "env \<Rightarrow> worker \<Rightarrow> (error option \<times> worker) outcome" where
  "makeRequest E w =
     (let reqNum = reqCounter w + 1;
          w0 = w\<lparr>reqCounter := reqNum\<rparr>;
          ctd = newCallTemplateData E (mtd w) (workerID w) reqNum
      in
      obind
        (if \<not> binary (config w) \<and> \<not> mtd_IsClientStreaming (mtd w)
            \<and> length (arrayJSONData w) > 0 then
           obind (index_expr (arrayJSONData w)
                    (sint (reqNum - 1) smod int (length (arrayJSONData w))))
             (\<lambda>d. getMessages E w0 ctd d)
         else getMessages E w0 ctd (data (config w)))
        (\<lambda>(r, w1).
           case r of
             Inl e \<Rightarrow> Returns (Some e, w1)
           | Inr inputs \<Rightarrow>
               if dryRun (config w) then Returns (None, w1)
               else
                 obind (executeMetadata E ctd (metadata (config w))) (\<lambda>m.
                   case m of
                     Inl e \<Rightarrow> Returns (Some e, w1)
                   | Inr mdMap \<Rightarrow>
                       let reqMD = (if map_len mdMap > 0 then mdMap else None)
                       in dispatch E w1 reqNum reqMD inputs)))"

subsection \<open>runWorker\<close>

text \<open>
  \<^verbatim>\<open>multierr.Append\<close>: nil when both are nil, the other one when one is nil, else the
  aggregate of both with nested aggregates flattened.
\<close>

fun errors_of :: "error \<Rightarrow> error list" where
  "errors_of (MultiError es) = es"
| "errors_of e = [e]"

fun multierr_Append :: "error option \<Rightarrow> error option \<Rightarrow> error option" where
  "multierr_Append None right = right"
| "multierr_Append left None = left"
| "multierr_Append (Some l) (Some r) = Some (MultiError (errors_of l @ errors_of r))"

text \<open>
  The loop of \<open>runWorker\<close>, at iteration \<open>i\<close> with the aggregate \<open>err\<close>. The bound \<open>n\<close> is
  \<^verbatim>\<open>w.nReq\<close>, which nothing assigns. The \<^verbatim>\<open>select\<close> returns nil when the stop channel
  is ready.
\<close>

function runWorkerLoop ::
  "env \<Rightarrow> int \<Rightarrow> worker \<Rightarrow> nat \<Rightarrow> error option \<Rightarrow> (error option \<times> worker) outcome" where
  "runWorkerLoop E n w i err =
     (if int i < n then
        (if stopCh E i then Returns (None, w)
         else
           (case makeRequest E w of
              Returns (rErr, w1) \<Rightarrow> runWorkerLoop E n w1 (i + 1) (multierr_Append err rErr)
            | Panics p \<Rightarrow> Panics p
            | Blocks \<Rightarrow> Blocks))
      else Returns (err, w))"
  by pat_completeness auto
termination
  by (relation "measure (\<lambda>(E, n, w, i, err). nat (n - int i))") auto

definition runWorker :: "env \<Rightarrow> worker \<Rightarrow> (error option \<times> worker) outcome" where
  "runWorker E w = runWorkerLoop E (nReq w) w 0 None"

section \<open>Fixtures\<close>

subsection \<open>A fragment of text/template\<close>

text \<open>
  An instance of the template library for the templates made of literal text and of
  field actions \<^verbatim>\<open>{{.Name}}\<close>: the lexer cuts the text at the delimiters, an action that
  is not closed is a parse error, and a field that \<^verbatim>\<open>callTemplateData\<close> does not have
  is an execution error that leaves the buffer as it was written so far. Every other
  action is outside the fragment and refused by \<open>parseAction\<close>; the instance is used
  below only on templates of the fragment.
\<close>

datatype item = ItemText string | ItemAction string

fun lexText :: "string \<Rightarrow> string \<Rightarrow> item list option"
  and lexInsideAction :: "string \<Rightarrow> string \<Rightarrow> item list option" where
  "lexText acc [] = Some [ItemText (rev acc)]"
| "lexText acc (c # cs) =
     (if c = CHR ''{'' \<and> take 1 cs = ''{''
      then map_option (\<lambda>is. ItemText (rev acc) # is) (lexInsideAction [] (drop 1 cs))
      else lexText (c # acc) cs)"
| "lexInsideAction acc [] = None"
| "lexInsideAction acc (c # cs) =
     (if c = CHR ''}'' \<and> take 1 cs = ''}''
      then map_option (\<lambda>is. ItemAction (rev acc) # is) (lexText [] (drop 1 cs))
      else lexInsideAction (c # acc) cs)"

datatype node = TextNode string | FieldNode string

definition isAlphaNumeric :: "char \<Rightarrow> bool" where
  "isAlphaNumeric c =
     (let k = (of_char c :: nat)
      in c = CHR ''_'' \<or> (48 \<le> k \<and> k \<le> 57) \<or> (65 \<le> k \<and> k \<le> 90) \<or> (97 \<le> k \<and> k \<le> 122))"

definition trimSpace :: "string \<Rightarrow> string" where
  "trimSpace s = rev (dropWhile (\<lambda>c. c = CHR '' '') (rev (dropWhile (\<lambda>c. c = CHR '' '') s)))"

definition parseAction :: "string \<Rightarrow> error + node" where
  "parseAction a =
     (case trimSpace a of
        [] \<Rightarrow> Inl (Error ''missing value for command'')
      | c # name \<Rightarrow>
          if c = CHR ''.'' \<and> name \<noteq> [] \<and> list_all isAlphaNumeric name
          then Inr (FieldNode name)
          else Inl (Error ''action outside the fragment''))"

fun parseItems :: "item list \<Rightarrow> error + node list" where
  "parseItems [] = Inr []"
| "parseItems (ItemText t # is) =
     (case parseItems is of Inl e \<Rightarrow> Inl e | Inr ns \<Rightarrow> Inr (TextNode t # ns))"
| "parseItems (ItemAction a # is) =
     (case parseAction a of
        Inl e \<Rightarrow> Inl e
      | Inr n \<Rightarrow> (case parseItems is of Inl e \<Rightarrow> Inl e | Inr ns \<Rightarrow> Inr (n # ns)))"

definition parse :: "string \<Rightarrow> error + node list" where
  "parse s =
     (case lexText [] s of
        None \<Rightarrow> Inl (Error ''unclosed action'')
      | Some is \<Rightarrow> parseItems is)"

function itoa :: "nat \<Rightarrow> string" where
  "itoa n =
     (if n < 10 then [''0123456789'' ! n]
      else itoa (n div 10) @ [''0123456789'' ! (n mod 10)])"
  by pat_completeness auto
termination
  by (relation "measure id") auto

definition formatInt :: "int \<Rightarrow> string" where
  "formatInt i = (if i < 0 then CHR ''-'' # itoa (nat (- i)) else itoa (nat i))"

definition formatBool :: "bool \<Rightarrow> string" where
  "formatBool b = (if b then ''true'' else ''false'')"

text \<open>The exported fields of \<^verbatim>\<open>callTemplateData\<close>, printed as \<^verbatim>\<open>Execute\<close> prints them.\<close>

definition field :: "callTemplateData \<Rightarrow> string \<Rightarrow> string option" where
  "field td name =
     (if name = ''WorkerID'' then Some (WorkerID td)
      else if name = ''RequestNumber'' then Some (formatInt (sint (RequestNumber td)))
      else if name = ''FullyQualifiedName'' then Some (FullyQualifiedName td)
      else if name = ''MethodName'' then Some (MethodName td)
      else if name = ''ServiceName'' then Some (ServiceName td)
      else if name = ''InputName'' then Some (InputName td)
      else if name = ''OutputName'' then Some (OutputName td)
      else if name = ''IsClientStreaming'' then Some (formatBool (IsClientStreaming td))
      else if name = ''IsServerStreaming'' then Some (formatBool (IsServerStreaming td))
      else if name = ''Timestamp'' then Some (Timestamp td)
      else if name = ''TimestampUnix'' then Some (formatInt (sint (TimestampUnix td)))
      else None)"

fun walk :: "callTemplateData \<Rightarrow> node list \<Rightarrow> string \<Rightarrow> string \<times> error option" where
  "walk td [] buf = (buf, None)"
| "walk td (TextNode t # ns) buf = walk td ns (buf @ t)"
| "walk td (FieldNode f # ns) buf =
     (case field td f of
        None \<Rightarrow> (buf, Some (Error (''can not evaluate field '' @ f)))
      | Some v \<Rightarrow> walk td ns (buf @ v))"

definition fragment_Parse :: "string \<Rightarrow> error option" where
  "fragment_Parse s = (case parse s of Inl e \<Rightarrow> Some e | Inr ns \<Rightarrow> None)"

definition fragment_Execute :: "string \<Rightarrow> callTemplateData \<Rightarrow> string \<times> error option" where
  "fragment_Execute s td =
     (case parse s of Inl e \<Rightarrow> ([], Some e) | Inr ns \<Rightarrow> walk td ns [])"

subsection \<open>An environment, a method and a worker\<close>

text \<open>
  \<open>json_fixture\<close> stands for \<^verbatim>\<open>json.Unmarshal\<close> into a \<^verbatim>\<open>map[string]string\<close> on the
  documents \<^verbatim>\<open>{}\<close> and \<^verbatim>\<open>null\<close>, and refuses every other text; it is used below on these
  two documents and on texts that are not JSON. \<open>one_message\<close> stands for a payload
  decoder: no message for the empty text, one message otherwise. \<open>corrupt\<close> is a
  decoder that fails.
\<close>

definition json_fixture :: "string \<Rightarrow> error + gomap" where
  "json_fixture s =
     (if s = ''{}'' then Inr (Some [])
      else if s = ''null'' then Inr None
      else Inl (Error ''invalid character''))"

definition one_message :: "string \<Rightarrow> error + message list option" where
  "one_message s = (if s = [] then Inr None else Inr (Some [Message s]))"

definition corrupt :: "string \<Rightarrow> error + message list option" where
  "corrupt s = Inl (Error ''proto: cannot parse'')"

text \<open>
  The entry points of the stub are the four calls that open an RPC, each for one kind
  of method. \<open>checkedStub\<close> refuses an entry point that is not the one for the method
  it is given; every other call succeeds, and a stream ends at its first \<^verbatim>\<open>RecvMsg\<close>.
\<close>

fun is_entry :: "event \<Rightarrow> bool" where
  "is_entry (InvokeRpc ctx x) = True"
| "is_entry (InvokeRpcServerStream ctx x) = True"
| "is_entry (InvokeRpcClientStream ctx) = True"
| "is_entry (InvokeRpcBidiStream ctx) = True"
| "is_entry ev = False"

fun kind_ok :: "methodDescriptor \<Rightarrow> event \<Rightarrow> bool" where
  "kind_ok m (InvokeRpc ctx x) = (\<not> mtd_IsClientStreaming m \<and> \<not> mtd_IsServerStreaming m)"
| "kind_ok m (InvokeRpcServerStream ctx x) = (\<not> mtd_IsClientStreaming m \<and> mtd_IsServerStreaming m)"
| "kind_ok m (InvokeRpcClientStream ctx) = (mtd_IsClientStreaming m \<and> \<not> mtd_IsServerStreaming m)"
| "kind_ok m (InvokeRpcBidiStream ctx) = (mtd_IsClientStreaming m \<and> mtd_IsServerStreaming m)"
| "kind_ok m ev = True"

definition checkedStub :: "methodDescriptor \<Rightarrow> event list \<Rightarrow> error option" where
  "checkedStub m tr =
     (if tr = [] then None
      else if \<not> kind_ok m (last tr) then Some (Error ''wrong kind of method'')
      else if last tr = RecvMsg then Some EOF
      else None)"

text \<open>
  In \<open>testEnv\<close> the stub is \<open>checkedStub\<close>, the receiving side of a bidirectional
  stream ends at its first \<^verbatim>\<open>RecvMsg\<close>, and the stop channel is never ready.
\<close>

definition testEnv :: env where
  "testEnv =
     \<lparr>template_Parse = fragment_Parse,
      template_Execute = fragment_Execute,
      json_Unmarshal = json_fixture,
      createPayloadsFromJSON = one_message,
      createPayloadsFromBin = one_message,
      time_Now = (\<lambda>reqNum. (''2020-01-01T00:00:00Z'', 1577836800)),
      stub = checkedStub,
      bidi_RecvMsg = (\<lambda>tr k. Some EOF),
      stopCh = (\<lambda>i. False)\<rparr>"

text \<open>The method and the context of the repository's tests.\<close>

definition SayHello :: methodDescriptor where
  "SayHello =
     \<lparr>GetFullyQualifiedName = ''helloworld.Greeter.SayHello'',
      GetName = ''SayHello'',
      GetServiceName = ''Greeter'',
      GetInputTypeName = ''HelloRequest'',
      GetOutputTypeName = ''HelloReply'',
      mtd_IsClientStreaming = False,
      mtd_IsServerStreaming = False\<rparr>"

definition testContext :: "int64 \<Rightarrow> callTemplateData" where
  "testContext reqNum = newCallTemplateData testEnv SayHello ''worker_id_123'' reqNum"

definition testWorker :: worker where
  "testWorker =
     \<lparr>mtd = SayHello,
      config = \<lparr>binary = False, dryRun = False, data = ''bob'', metadata = []\<rparr>,
      reqCounter = 0,
      nReq = 2,
      workerID = ''worker_id_123'',
      cachedMessages = None,
      arrayJSONData = [],
      trace = []\<rparr>"

text \<open>The first component of what a call returns.\<close>

definition returned :: "('a \<times> 'b) outcome \<Rightarrow> 'a outcome" where
  "returned r = obind r (\<lambda>(x, y). Returns x)"

text \<open>
  A store with one backing array of two elements, and the slice of all of it.
\<close>

definition abStore :: store where
  "abStore = (\<lambda>a. if a = 0 then [''a'', ''b''] else [])"

definition abSlice :: slice where
  "abSlice = \<lparr>arr = 0, off = 0, len = 2\<rparr>"

text \<open>
  The three streaming methods of the same service, and for a method \<open>m\<close> the worker
  whose payload is the JSON object \<^verbatim>\<open>{}\<close>, which resolves to one message; the worker
  without payload, for the unary, the client-streaming and the bidirectional method; a
  worker in dry-run
  mode; a worker in binary mode, and an environment whose binary decoder fails; an
  environment whose stop channel is ready at the second iteration.
\<close>

definition SayHelloCS :: methodDescriptor where
  "SayHelloCS =
     SayHello\<lparr>GetFullyQualifiedName := ''helloworld.Greeter.SayHelloCS'',
              GetName := ''SayHelloCS'',
              mtd_IsClientStreaming := True\<rparr>"

definition SayHellos :: methodDescriptor where
  "SayHellos =
     SayHello\<lparr>GetFullyQualifiedName := ''helloworld.Greeter.SayHellos'',
              GetName := ''SayHellos'',
              mtd_IsServerStreaming := True\<rparr>"

definition SayHelloBidi :: methodDescriptor where
  "SayHelloBidi =
     SayHello\<lparr>GetFullyQualifiedName := ''helloworld.Greeter.SayHelloBidi'',
              GetName := ''SayHelloBidi'',
              mtd_IsClientStreaming := True,
              mtd_IsServerStreaming := True\<rparr>"

definition objectWorker :: "methodDescriptor \<Rightarrow> worker" where
  "objectWorker m = testWorker\<lparr>mtd := m, config := (config testWorker)\<lparr>data := ''{}''\<rparr>\<rparr>"

definition noDataWorker :: worker where
  "noDataWorker = testWorker\<lparr>config := (config testWorker)\<lparr>data := []\<rparr>\<rparr>"




definition binaryWorker :: worker where
  "binaryWorker = testWorker\<lparr>config := (config testWorker)\<lparr>binary := True\<rparr>\<rparr>"

definition corruptEnv :: env where
  "corruptEnv = testEnv\<lparr>createPayloadsFromBin := corrupt\<rparr>"

definition stopEnv :: env where
  "stopEnv = testEnv\<lparr>stopCh := (\<lambda>i. i = 1)\<rparr>"

section \<open>Notions for stating the properties of the worker\<close>

text \<open>
  \<open>calls E w k\<close> is \<open>k\<close> calls of \<open>makeRequest\<close> one after the other, from the worker
  \<open>w\<close>: the errors they returned, in order, and the worker after the last one. It does
  not return when one of the calls does not.
\<close>

fun calls :: "env \<Rightarrow> worker \<Rightarrow> nat \<Rightarrow> (error option list \<times> worker) outcome" where
  "calls E w 0 = Returns ([], w)"
| "calls E w (Suc k) =
     (case makeRequest E w of
        Returns (rErr, w1) \<Rightarrow>
          (case calls E w1 k of
             Returns (rs, w2) \<Rightarrow> Returns (rErr # rs, w2)
           | Panics p \<Rightarrow> Panics p
           | Blocks \<Rightarrow> Blocks)
      | Panics p \<Rightarrow> Panics p
      | Blocks \<Rightarrow> Blocks)"

text \<open>
  \<open>rounds E n\<close> is the number of iterations, of at most \<open>n\<close>, before the first one that
  finds the stop channel ready.
\<close>

definition rounds :: "env \<Rightarrow> int \<Rightarrow> nat" where
  "rounds E n = length (takeWhile (\<lambda>i. \<not> stopCh E i) [0..<nat n])"


definition accepted :: "env \<Rightarrow> methodDescriptor \<Rightarrow> event list \<Rightarrow> event list" where
  "accepted E m tr =
     map (\<lambda>i. tr ! i)
       (filter (\<lambda>i. is_entry (tr ! i) \<and> stub E m (take (Suc i) tr) = None) [0..<length tr])"

text \<open>
  A JSON object starts, after white space, with an opening brace.
\<close>

definition starts_object :: "string \<Rightarrow> bool" where
  "starts_object s =
     (case dropWhile (\<lambda>c. c = CHR '' '') s of [] \<Rightarrow> False | c # cs \<Rightarrow> c = CHR ''{'')"

text \<open>\<^verbatim>\<open>multierr.Errors\<close>: the errors that an aggregate holds; none for nil.\<close>

definition multierr_Errors :: "error option \<Rightarrow> error list" where
  "multierr_Errors err = (case err of None \<Rightarrow> [] | Some e \<Rightarrow> errors_of e)"

section \<open>Properties of the template functions\<close>

lemma RequestNumber_testContext: "RequestNumber (testContext k) = k"
  by (simp add: testContext_def newCallTemplateData_def Let_def)

subsection \<open>RoundRobin\<close>

lemma smod_nonneg: "0 \<le> a \<Longrightarrow> 0 < b \<Longrightarrow> (a::int) smod b = a mod b"
  by (cases "a = 0") (simp_all add: smod_int_alt_def)

lemma sint_add_nat:
  fixes k :: int64
  assumes "0 \<le> sint k" "sint k + int n < 2 ^ 63"
  shows "sint (k + of_nat n) = sint k + int n"
proof -
  have n: "int n < 2 ^ 63" using assms by linarith
  have "sint (of_nat n :: int64) = signed_take_bit 63 (int n)"
    by (simp add: signed_of_nat)
  also have "\<dots> = int n"
    using n by (intro signed_take_bit_int_eq_self) simp_all
  finally have 1: "sint (of_nat n :: int64) = int n" .
  have "sint (k + of_nat n) = signed_take_bit 63 (sint k + int n)"
    by (simp add: sint_word_add 1)
  also have "\<dots> = sint k + int n"
    using assms by (intro signed_take_bit_int_eq_self) simp_all
  finally show ?thesis .
qed

lemma RoundRobin_index:
  assumes "values \<noteq> []" "0 \<le> sint (RequestNumber td)"
  shows "RoundRobin td values =
           Returns (Inr (values ! (nat (sint (RequestNumber td)) mod length values)))"
proof -
  let ?k = "sint (RequestNumber td)" and ?n = "int (length values)"
  have n: "0 < ?n" using assms by simp
  have eq: "?k smod ?n = ?k mod ?n" using assms n by (simp add: smod_nonneg)
  have "0 \<le> ?k mod ?n" "?k mod ?n < ?n" using n by simp_all
  moreover have "nat (?k mod ?n) = nat ?k mod length values"
    using assms(2) by (simp add: nat_mod_distrib)
  ultimately show ?thesis using assms(1)
    by (simp add: RoundRobin_def Let_def eq)
qed

text \<open>
  C7, as the code has it. On empty input \<open>RoundRobin\<close> returns the error
  \<^verbatim>\<open>values is empty\<close>. For non-empty \<open>values\<close> and a context whose request number is not
  negative it returns \<open>values[RequestNumber mod len(values)]\<close>; and two such contexts
  whose request numbers are \<open>k\<close> and \<open>k + len(values)\<close> (the sum within \<^verbatim>\<open>int64\<close>) get
  the same element.
\<close>

theorem RoundRobin_nonnegative:
  "RoundRobin td [] = Returns (Inl (Error ''values is empty'')) \<and>
   (values \<noteq> [] \<and> 0 \<le> sint (RequestNumber td) \<longrightarrow>
      RoundRobin td values =
        Returns (Inr (values ! (nat (sint (RequestNumber td)) mod length values)))) \<and>
   (values \<noteq> [] \<and> 0 \<le> sint (RequestNumber td) \<and>
    sint (RequestNumber td) + int (length values) < 2 ^ 63 \<and>
    RequestNumber td' = RequestNumber td + of_nat (length values) \<longrightarrow>
      RoundRobin td' values = RoundRobin td values)"
proof (intro conjI impI)
  show "RoundRobin td [] = Returns (Inl (Error ''values is empty''))"
    by (simp add: RoundRobin_def)
next
  assume "values \<noteq> [] \<and> 0 \<le> sint (RequestNumber td)"
  then show "RoundRobin td values =
        Returns (Inr (values ! (nat (sint (RequestNumber td)) mod length values)))"
    by (simp add: RoundRobin_index)
next
  assume a: "values \<noteq> [] \<and> 0 \<le> sint (RequestNumber td) \<and>
    sint (RequestNumber td) + int (length values) < 2 ^ 63 \<and>
    RequestNumber td' = RequestNumber td + of_nat (length values)"
  then have s: "sint (RequestNumber td') = sint (RequestNumber td) + int (length values)"
    by (simp add: sint_add_nat)
  then have "0 \<le> sint (RequestNumber td')" using a by linarith
  then have "RoundRobin td' values =
      Returns (Inr (values ! (nat (sint (RequestNumber td')) mod length values)))"
    using a by (simp add: RoundRobin_index)
  moreover have "nat (sint (RequestNumber td')) mod length values =
      nat (sint (RequestNumber td)) mod length values"
    using a s by (simp add: nat_add_distrib)
  ultimately show "RoundRobin td' values = RoundRobin td values"
    using a by (simp add: RoundRobin_index)
qed

text \<open>
  The test context with request number 200, and the one with 203, on three values:
  both get the element at index \<open>200 mod 3 = 2\<close>.
\<close>

theorem RoundRobin_nonnegative_witness:
  "[''a'', ''b'', ''c''] \<noteq> [] \<and> 0 \<le> sint (RequestNumber (testContext 200)) \<and>
   RoundRobin (testContext 200) [''a'', ''b'', ''c''] = Returns (Inr ''c'') \<and>
   RoundRobin (testContext 203) [''a'', ''b'', ''c''] = Returns (Inr ''c'')"
  using RoundRobin_nonnegative [of "testContext 200" "[''a'', ''b'', ''c'']" "testContext 203"]
  by (simp add: RequestNumber_testContext)

text \<open>
  C7 as stated fails for a context with a negative request number: with
  \<open>RequestNumber = -1\<close> and two values, \<^verbatim>\<open>-1 % 2\<close> is \<open>-1\<close> in Go and the index
  expression panics, where \<open>values[RequestNumber mod len(values)]\<close> is \<open>values[1]\<close>.
\<close>

theorem RoundRobin_negative_request_number:
  "RoundRobin (testContext (- 1)) [''a'', ''b''] = Panics ''index out of range'' \<and>
   [''a'', ''b''] ! nat (sint (RequestNumber (testContext (- 1))) mod int (length [''a'', ''b'']))
     = ''b''"
  by (simp add: RoundRobin_def RequestNumber_testContext smod_int_alt_def)

subsection \<open>RandomSlice\<close>

lemma Intn_less: "0 < n \<Longrightarrow> Intn src n < n"
  by (simp add: Intn_def)

lemma RandomSlice_window:
  assumes "values \<noteq> []"
    and a: "a = Intn src1 (length values)" and b: "b = Intn src2 (length values)"
  shows "RandomSlice src1 src2 values =
           Returns (Inr (if a = b then (if a = 0 then take 1 values else take 1 (drop (a - 1) values))
                         else take (max a b - min a b) (drop (min a b) values)))"
proof -
  have n: "0 < length values" using assms by simp
  have ab: "a < length values" "b < length values"
    using n by (simp_all add: a b Intn_less)
  consider "a > b" | "a = b" "a = 0" | "a = b" "a \<noteq> 0" | "a < b" by linarith
  then show ?thesis
  proof cases
    case 1
    then show ?thesis using ab n
      by (simp add: RandomSlice_def Let_def slice_expr_def obind_def a[symmetric] b[symmetric]
            max_def min_def)
  next
    case 2
    then show ?thesis using ab n
      by (simp add: RandomSlice_def Let_def slice_expr_def obind_def a[symmetric] b[symmetric]
            Suc_le_eq)
  next
    case 3
    then show ?thesis using ab n
      by (simp add: RandomSlice_def Let_def slice_expr_def obind_def a[symmetric] b[symmetric])
  next
    case 4
    then show ?thesis using ab n
      by (simp add: RandomSlice_def Let_def slice_expr_def obind_def a[symmetric] b[symmetric]
            max_def min_def)
  qed
qed

lemma window_split:
  assumes "lo < hi" "hi \<le> length xs"
  shows "take (hi - lo) (drop lo xs) \<noteq> [] \<and>
         xs = take lo xs @ take (hi - lo) (drop lo xs) @ drop hi xs"
proof -
  have e: "drop hi xs = drop (hi - lo) (drop lo xs)"
    using assms by simp
  have "take (hi - lo) (drop lo xs) @ drop hi xs = drop lo xs"
    unfolding e by (rule append_take_drop_id)
  then have "xs = take lo xs @ take (hi - lo) (drop lo xs) @ drop hi xs"
    by simp
  moreover have "take (hi - lo) (drop lo xs) \<noteq> []" using assms by simp
  ultimately show ?thesis by simp
qed

text \<open>
  C8. On empty input \<open>RandomSlice\<close> returns the error \<^verbatim>\<open>values is empty\<close>. On non-empty
  input, whatever the two draws, it returns a non-empty run \<open>values[lo:hi]\<close> of
  consecutive elements of its input; when the two sampled bounds coincide at 0 the run
  is \<open>values[0:1]\<close> (the end bound extended by one), when they coincide at \<open>a > 0\<close> it
  is \<open>values[a-1:a]\<close> (the start bound retracted by one), and otherwise it lies between
  the smaller and the larger bound.
\<close>

theorem RandomSlice_nonempty_contiguous:
  "RandomSlice src1 src2 [] = Returns (Inl (Error ''values is empty'')) \<and>
   (values \<noteq> [] \<longrightarrow>
      (\<exists>lo hi r. RandomSlice src1 src2 values = Returns (Inr r) \<and>
         r \<noteq> [] \<and> values = take lo values @ r @ drop hi values \<and>
         lo < hi \<and> hi \<le> length values \<and> length r = hi - lo \<and>
         (let a = Intn src1 (length values); b = Intn src2 (length values)
          in if a = b then (if a = 0 then lo = 0 \<and> hi = 1 else lo = a - 1 \<and> hi = a)
             else lo = min a b \<and> hi = max a b)))"
proof (intro conjI impI)
  show "RandomSlice src1 src2 [] = Returns (Inl (Error ''values is empty''))"
    by (simp add: RandomSlice_def)
next
  assume ne: "values \<noteq> []"
  define a where "a = Intn src1 (length values)"
  define b where "b = Intn src2 (length values)"
  define lo where "lo = (if a = b then (if a = 0 then 0 else a - 1) else min a b)"
  define hi where "hi = (if a = b then (if a = 0 then 1 else a) else max a b)"
  have ab: "a < length values" "b < length values"
    using ne by (simp_all add: a_def b_def Intn_less)
  have lohi: "lo < hi" "hi \<le> length values"
    using ab by (auto simp: lo_def hi_def)
  have r: "RandomSlice src1 src2 values = Returns (Inr (take (hi - lo) (drop lo values)))"
    using RandomSlice_window [OF ne a_def b_def] by (auto simp: lo_def hi_def)
  have pol: "(let a = Intn src1 (length values); b = Intn src2 (length values)
          in if a = b then (if a = 0 then lo = 0 \<and> hi = 1 else lo = a - 1 \<and> hi = a)
             else lo = min a b \<and> hi = max a b)"
    by (simp add: Let_def lo_def hi_def a_def b_def)
  have len: "length (take (hi - lo) (drop lo values)) = hi - lo"
    using lohi by simp
  show "\<exists>lo hi r. RandomSlice src1 src2 values = Returns (Inr r) \<and>
         r \<noteq> [] \<and> values = take lo values @ r @ drop hi values \<and>
         lo < hi \<and> hi \<le> length values \<and> length r = hi - lo \<and>
         (let a = Intn src1 (length values); b = Intn src2 (length values)
          in if a = b then (if a = 0 then lo = 0 \<and> hi = 1 else lo = a - 1 \<and> hi = a)
             else lo = min a b \<and> hi = max a b)"
    using r window_split [OF lohi] lohi len pol by blast
qed

text \<open>Both bounds at 2 on three values: the start bound is retracted, the result is \<open>[b]\<close>.\<close>

theorem RandomSlice_nonempty_contiguous_witness:
  "[''a'', ''b'', ''c''] \<noteq> [] \<and> RandomSlice 5 8 [''a'', ''b'', ''c''] = Returns (Inr [''b''])"
proof -
  from RandomSlice_nonempty_contiguous [of 5 8 "[''a'', ''b'', ''c'']"]
  obtain lo hi r where r: "RandomSlice 5 8 [''a'', ''b'', ''c''] = Returns (Inr r)"
    and "[''a'', ''b'', ''c''] = take lo [''a'', ''b'', ''c''] @ r @ drop hi [''a'', ''b'', ''c'']"
    and "length r = hi - lo"
    and "lo = 1 \<and> hi = 2"
    by (auto simp add: Intn_def Let_def)
  then have "r = [''b'']" by (cases r) simp_all
  with r show ?thesis by simp
qed

text \<open>
  C10. When \<open>values\<close> has at least two elements, the run \<open>values[lo:hi]\<close> that
  \<open>RandomSlice\<close> returns has \<open>hi < len(values)\<close>, whatever the two draws: at least one
  element follows it, so the position of the last element is never part of it (and
  when the elements are distinct, the last element is not in the result).
\<close>

theorem RandomSlice_misses_last:
  assumes "2 \<le> length values"
  shows "\<exists>lo hi r. RandomSlice src1 src2 values = Returns (Inr r) \<and>
           r = take (hi - lo) (drop lo values) \<and> lo < hi \<and> hi < length values \<and>
           values = take lo values @ r @ drop hi values \<and> drop hi values \<noteq> [] \<and>
           (distinct values \<longrightarrow> last values \<notin> set r)"
proof -
  have ne: "values \<noteq> []" using assms by auto
  define a where "a = Intn src1 (length values)"
  define b where "b = Intn src2 (length values)"
  define lo where "lo = (if a = b then (if a = 0 then 0 else a - 1) else min a b)"
  define hi where "hi = (if a = b then (if a = 0 then 1 else a) else max a b)"
  define r where "r = take (hi - lo) (drop lo values)"
  have ab: "a < length values" "b < length values"
    using ne by (simp_all add: a_def b_def Intn_less)
  have lohi: "lo < hi" "hi < length values"
    using ab assms by (auto simp: lo_def hi_def)
  have res: "RandomSlice src1 src2 values = Returns (Inr r)"
    using RandomSlice_window [OF ne a_def b_def] by (auto simp: lo_def hi_def r_def)
  have sp: "values = take lo values @ r @ drop hi values"
    using window_split [of lo hi "values"] lohi by (simp add: r_def)
  have post: "drop hi values \<noteq> []" using lohi by simp
  have "last values \<notin> set r" if d: "distinct values"
  proof -
    have "last values = last (drop hi values)" using post by simp
    then have "last values \<in> set (drop hi values)" using post by (metis last_in_set)
    moreover have "distinct (take lo values @ r @ drop hi values)" using d sp by simp
    ultimately show ?thesis by auto
  qed
  then show ?thesis using res lohi sp post r_def by blast
qed

text \<open>Two values, both bounds at 1: the result is \<open>[a]\<close>, without the last element.\<close>

theorem RandomSlice_misses_last_witness:
  "2 \<le> length [''a'', ''b''] \<and> RandomSlice 1 1 [''a'', ''b''] = Returns (Inr [''a''])"
proof -
  have h: "2 \<le> length [''a'', ''b'']" by simp
  from RandomSlice_misses_last [OF h, of 1 1]
  obtain lo hi r where "RandomSlice 1 1 [''a'', ''b''] = Returns (Inr r)"
    "r = take (hi - lo) (drop lo [''a'', ''b''])" "lo < hi" "hi < length [''a'', ''b'']"
    by blast
  moreover from this have "hi = 1" "lo = 0" by simp_all
  ultimately show ?thesis by simp
qed

subsection \<open>Shuffle\<close>

lemma elems_update:
  assumes "off s + len s \<le> length a" "i < len s"
  shows "take (len s) (drop (off s) (a[off s + i := v])) = (take (len s) (drop (off s) a))[i := v]"
  using assms by (simp add: drop_update_swap take_update_swap)

lemma swap_Returns:
  assumes ok: "slice_ok st s" and i: "i < len s" and j: "j < len s"
  shows "\<exists>st'. swap st s i j = Returns st' \<and>
           elems st' s = (elems st s)[i := elems st s ! j, j := elems st s ! i] \<and>
           slice_ok st' s \<and> (\<forall>a. a \<noteq> arr s \<longrightarrow> st' a = st a)"
proof -
  let ?a = "st (arr s)"
  let ?st' = "st(arr s := ?a[off s + i := ?a ! (off s + j), off s + j := ?a ! (off s + i)])"
  have le: "off s + len s \<le> length ?a" using ok by (simp add: slice_ok_def)
  have r: "swap st s i j = Returns ?st'"
    using i j by (simp add: swap_def Let_def)
  have ei: "elems st s ! i = ?a ! (off s + i)" using le i by (simp add: elems_def)
  have ej: "elems st s ! j = ?a ! (off s + j)" using le j by (simp add: elems_def)
  have "elems ?st' s = (elems st s)[i := elems st s ! j, j := elems st s ! i]"
    using le i j by (simp add: elems_def ei[unfolded elems_def] ej[unfolded elems_def]
        drop_update_swap take_update_swap)
  moreover have "slice_ok ?st' s" using le by (simp add: slice_ok_def)
  ultimately show ?thesis using r by auto
qed

lemma swap_mset:
  assumes "slice_ok st s" "i < len s" "j < len s" "swap st s i j = Returns st'"
  shows "mset (elems st' s) = mset (elems st s) \<and> slice_ok st' s \<and>
         (\<forall>a. a \<noteq> arr s \<longrightarrow> st' a = st a)"
proof -
  from swap_Returns [OF assms(1-3)] assms(4)
  have e: "elems st' s = (elems st s)[i := elems st s ! j, j := elems st s ! i]"
    and rest: "slice_ok st' s" "\<forall>a. a \<noteq> arr s \<longrightarrow> st' a = st a"
    by auto
  have l: "length (elems st s) = len s"
    using assms(1) by (simp add: elems_def slice_ok_def)
  have "mset (elems st' s) = mset (elems st s)"
    unfolding e using mset_swap [of j "elems st s" i] assms(2,3) l by simp
  with rest show ?thesis by simp
qed

lemma rand_Shuffle_mset:
  assumes "slice_ok st s" "list_all (\<lambda>(i, j). i < len s \<and> j < len s) swaps"
  shows "\<exists>st'. rand_Shuffle st s swaps = Returns st' \<and>
           mset (elems st' s) = mset (elems st s) \<and> slice_ok st' s \<and>
           (\<forall>a. a \<noteq> arr s \<longrightarrow> st' a = st a)"
  using assms
proof (induction swaps arbitrary: st)
  case Nil
  then show ?case by simp
next
  case (Cons p swaps)
  obtain i j where p: "p = (i, j)" by (cases p)
  from Cons.prems p have ij: "i < len s" "j < len s"
    and tl: "list_all (\<lambda>(i, j). i < len s \<and> j < len s) swaps" by simp_all
  from swap_Returns [OF Cons.prems(1) ij] obtain st1 where
    s1: "swap st s i j = Returns st1" by blast
  from swap_mset [OF Cons.prems(1) ij s1] have
    m1: "mset (elems st1 s) = mset (elems st s)" and ok1: "slice_ok st1 s"
    and f1: "\<forall>a. a \<noteq> arr s \<longrightarrow> st1 a = st a" by simp_all
  from Cons.IH [OF ok1 tl] obtain st' where
    r: "rand_Shuffle st1 s swaps = Returns st'"
    and m: "mset (elems st' s) = mset (elems st1 s)" and ok: "slice_ok st' s"
    and f: "\<forall>a. a \<noteq> arr s \<longrightarrow> st' a = st1 a" by blast
  have "rand_Shuffle st s (p # swaps) = Returns st'"
    by (simp add: p s1 obind_def r)
  then show ?case using m m1 ok f f1 by auto
qed

text \<open>
  C9, as the code has it. \<open>Shuffle\<close> works in place: for a slice within its backing
  array and swaps within the slice it returns the very slice it was given, and the
  elements that slice now holds, for the caller as for the callee, are a permutation of
  those it held before; no other backing array changes.
\<close>

theorem Shuffle_in_place:
  "slice_ok st s \<and> list_all (\<lambda>(i, j). i < len s \<and> j < len s) swaps \<longrightarrow>
     (\<exists>st'. Shuffle swaps st s = Returns (s, st') \<and>
        mset (elems st' s) = mset (elems st s) \<and>
        (\<forall>a. a \<noteq> arr s \<longrightarrow> st' a = st a))"
proof
  assume a: "slice_ok st s \<and> list_all (\<lambda>(i, j). i < len s \<and> j < len s) swaps"
  then obtain st' where "rand_Shuffle st s swaps = Returns st'"
    "mset (elems st' s) = mset (elems st s)" "\<forall>a. a \<noteq> arr s \<longrightarrow> st' a = st a"
    using rand_Shuffle_mset by blast
  then show "\<exists>st'. Shuffle swaps st s = Returns (s, st') \<and>
        mset (elems st' s) = mset (elems st s) \<and>
        (\<forall>a. a \<noteq> arr s \<longrightarrow> st' a = st a)"
    by (simp add: Shuffle_def obind_def)
qed

text \<open>One swap on the slice of two elements.\<close>

theorem Shuffle_in_place_witness:
  "slice_ok abStore abSlice \<and> list_all (\<lambda>(i, j). i < len abSlice \<and> j < len abSlice) [(1, 0)] \<and>
   obind (Shuffle [(1, 0)] abStore abSlice) (\<lambda>(r, st'). Returns (r, mset (elems st' r)))
     = Returns (abSlice, mset [''a'', ''b''])"
proof -
  have h: "slice_ok abStore abSlice \<and>
      list_all (\<lambda>(i, j). i < len abSlice \<and> j < len abSlice) [(1, 0)]"
    by (simp add: slice_ok_def abStore_def abSlice_def)
  from Shuffle_in_place [of abStore abSlice "[(1, 0)]"] h
  obtain st' where "Shuffle [(1, 0)] abStore abSlice = Returns (abSlice, st')"
    "mset (elems st' abSlice) = mset (elems abStore abSlice)" by blast
  moreover have "elems abStore abSlice = [''a'', ''b'']"
    by (simp add: elems_def abStore_def abSlice_def)
  ultimately show ?thesis using h by (simp add: obind_def)
qed

text \<open>
  C9 as stated fails: there is no working copy. After \<open>Shuffle\<close> with the swap
  \<open>(1, 0)\<close>, the caller's slice, which held \<open>[a, b]\<close>, holds \<open>[b, a]\<close>.
\<close>

theorem Shuffle_changes_the_input:
  "elems abStore abSlice = [''a'', ''b''] \<and>
   obind (Shuffle [(1, 0)] abStore abSlice) (\<lambda>(r, st'). Returns (elems st' abSlice))
     = Returns [''b'', ''a'']"
  by (simp add: Shuffle_def swap_def obind_def elems_def abStore_def abSlice_def Let_def)

section \<open>Properties of executeData and executeMetadata\<close>

text \<open>
  C1 asks that a template that fails to parse be used as the literal payload. The code
  does not get there: on the template \<^verbatim>\<open>{{\<close>, whose action is not closed, \<^verbatim>\<open>Parse\<close> returns
  an error, \<^verbatim>\<open>template.Must\<close> panics, and \<open>executeData\<close> returns nothing.
\<close>

theorem executeData_unclosed_action:
  "executeData testEnv (testContext 200) ''{{'' = Panics ''template.Must''"
  by (simp add: executeData_def execute_def testEnv_def fragment_Parse_def parse_def obind_def)

text \<open>
  The rest of C1 holds: once the template has parsed, a failed evaluation makes
  \<open>executeData\<close> return its input unchanged with a nil error, and a successful one the
  expansion. A field that the context does not have fails the evaluation, so the whole
  input comes back, the known fields after it unexpanded, as in the repository's test
  \<^verbatim>\<open>with unknown action\<close>.
\<close>

lemma executeData_fallback:
  assumes "d \<noteq> []" "execute E td d = Returns (tpl, Some e)"
  shows "executeData E td d = Returns (d, None)"
  using assms by (simp add: executeData_def obind_def)

lemma executeData_expanded:
  assumes "d \<noteq> []" "execute E td d = Returns (tpl, None)"
  shows "executeData E td d = Returns (tpl, None)"
  using assms by (simp add: executeData_def obind_def)

lemma executeData_unknown_field:
  "executeData testEnv (testContext 200) ''asdf {{.Something}} {{.MethodName}} bob''
     = Returns (''asdf {{.Something}} {{.MethodName}} bob'', None)"
  by code_simp

lemma executeData_fields:
  "executeData testEnv (testContext 200) ''{{.WorkerID}} {{.RequestNumber}} {{.ServiceName}}''
     = Returns (''worker_id_123 200 Greeter'', None)"
  by code_simp

text \<open>
  C6. On the empty string \<open>executeData\<close> returns the empty byte sequence and a nil
  error, and \<open>executeMetadata\<close> returns a nil error and a map that is nil, hence of
  length 0. For a non-empty metadata input on which \<open>execute\<close> returns,
  \<open>executeMetadata\<close> returns what \<^verbatim>\<open>json.Unmarshal\<close> returns on the expansion, or on
  the input itself when the evaluation failed: the error when \<^verbatim>\<open>json.Unmarshal\<close>
  refuses that text, and otherwise the decoded map with a nil error, whether or not
  the text is a JSON object.
\<close>

theorem executeMetadata_unmarshal:
  "executeData E td [] = Returns ([], None) \<and>
   executeMetadata E td [] = Returns (Inr None) \<and> map_len None = 0 \<and>
   (md \<noteq> [] \<and> execute E td md = Returns (tpl, err) \<longrightarrow>
      executeMetadata E td md = Returns (json_Unmarshal E (if err = None then tpl else md))) \<and>
   (md \<noteq> [] \<and> execute E td md = Returns (tpl, err) \<and>
    json_Unmarshal E (if err = None then tpl else md) = Inl e \<longrightarrow>
      executeMetadata E td md = Returns (Inl e))"
  by (auto simp add: executeData_def executeMetadata_def map_len_def obind_def split: sum.splits)

text \<open>The metadata \<^verbatim>\<open>trace\<close> has no action and is not JSON.\<close>

theorem executeMetadata_unmarshal_witness:
  "''trace'' \<noteq> [] \<and> execute testEnv (testContext 200) ''trace'' = Returns (''trace'', None) \<and>
   json_Unmarshal testEnv ''trace'' = Inl (Error ''invalid character'') \<and>
   executeMetadata testEnv (testContext 200) ''trace'' = Returns (Inl (Error ''invalid character''))"
proof -
  have 1: "execute testEnv (testContext 200) ''trace'' = Returns (''trace'', None)"
    by code_simp
  have 2: "json_Unmarshal testEnv ''trace'' = Inl (Error ''invalid character'')"
    by (simp add: testEnv_def json_fixture_def)
  from executeMetadata_unmarshal
    [of testEnv "testContext 200" "''trace''" "''trace''" None "Error ''invalid character''"] 1 2
  show ?thesis by simp
qed

text \<open>
  The metadata \<^verbatim>\<open>null\<close> is not a JSON object, and \<^verbatim>\<open>json.Unmarshal\<close> accepts it into a
  map, which it leaves nil: \<open>executeMetadata\<close> returns the nil map and a nil error.
\<close>

theorem executeMetadata_accepts_null:
  "\<not> starts_object ''null'' \<and>
   executeMetadata testEnv (testContext 200) ''null'' = Returns (Inr None)"
  by code_simp

section \<open>Properties of the worker\<close>

declare clientStreamLoop.simps [simp del] bidiSendLoop.simps [simp del] runWorkerLoop.simps [simp del]

lemma trace_call: "trace (snd (call E w ev)) = trace w @ [ev]"
  by (simp add: call_def Let_def)

lemma obind_Returns:
  "(obind m f = Returns y) = (\<exists>x. m = Returns x \<and> f x = Returns y)"
  by (cases m) (simp_all add: obind_def)

lemma case_sum_Returns:
  "((case s of Inl e \<Rightarrow> A e | Inr x \<Rightarrow> B x) = Returns y) =
     ((\<exists>e. s = Inl e \<and> A e = Returns y) \<or> (\<exists>x. s = Inr x \<and> B x = Returns y))"
  by (cases s) auto

lemma returned_Returns: "(returned r = Returns x) = (\<exists>y. r = Returns (x, y))"
  by (cases r) (auto simp: returned_def obind_def)

text \<open>A call of the stub is recorded in the trace; the worker's method never changes.\<close>

lemma call_logged: "call E w ev = (stub E (mtd w) (trace w @ [ev]), logged w ev)"
  by (simp add: call_def logged_def Let_def)

lemma mtd_logged: "mtd (logged w ev) = mtd w"
  by (simp add: logged_def)

lemma clientStreamLoop_mtd:
  "clientStreamLoop E w input counter = Returns w' \<Longrightarrow> mtd w' = mtd w"
proof (induction E w input counter rule: clientStreamLoop.induct)
  case (1 E w input counter)
  let ?ev = "SendMsg (the input ! counter)"
  let ?err = "stub E (mtd w) (trace w @ [?ev])"
  show ?case
  proof (cases "input \<noteq> None \<and> slice_len input \<noteq> 0 \<and> counter < slice_len input \<and> ?err = None")
    case True
    with "1.prems" have "clientStreamLoop E (logged w ?ev) input (counter + 1) = Returns w'"
      by (subst (asm) clientStreamLoop.simps) (simp add: call_logged Let_def)
    moreover have "call E w ?ev = (None, logged w ?ev)" using True by (simp add: call_logged)
    ultimately have "mtd w' = mtd (logged w ?ev)"
      using "1.IH" True by (auto simp: call_logged)
    then show ?thesis by (simp add: mtd_logged)
  next
    case False
    with "1.prems" show ?thesis
      by (subst (asm) clientStreamLoop.simps)
         (auto simp: call_logged mtd_logged Let_def split: if_splits)
  qed
qed


lemma serverStreamLoop_mtd:
  assumes "serverStreamLoop E w = Some y"
  shows "mtd (snd y) = mtd w"
proof (rule serverStreamLoop.raw_induct [where P = "\<lambda>E w y. mtd (snd y) = mtd w"])
  show "serverStreamLoop E w = Some y" by (rule assms)
next
  fix f E w y
  assume IH: "\<And>E v z. f E v = Some z \<Longrightarrow> mtd (snd z) = mtd v"
    and step: "(case call E w RecvMsg of (err, w1) \<Rightarrow>
        (case err of None \<Rightarrow> f E w1
         | Some e \<Rightarrow> Some (if e = EOF then None else Some e, w1))) = Some y"
  show "mtd (snd y) = mtd w"
  proof (cases "stub E (mtd w) (trace w @ [RecvMsg])")
    case None
    with step have "f E (logged w RecvMsg) = Some y"
      by (simp add: call_logged)
    then have "mtd (snd y) = mtd (logged w RecvMsg)" by (rule IH)
    then show ?thesis by (simp add: mtd_logged)
  next
    case (Some e)
    with step show ?thesis
      by (auto simp: call_logged mtd_logged)
  qed
qed

subsection \<open>getMessages\<close>

lemma executeData_nil_error:
  "executeData E td d = Returns (x, err) \<Longrightarrow> err = None"
  by (auto simp: executeData_def obind_def Let_def split: if_splits outcome.splits prod.splits)

text \<open>
  C5, as the code has it. A worker whose cache is set returns the cached slice and
  nothing else happens: no decoder is called, the worker is unchanged. In binary mode
  with an empty cache the decoder is called once; when it succeeds with a slice that is
  not nil, the slice is cached; when it fails, its error is returned and the cache stays
  empty. In the other mode with an empty cache, the payload is expanded by
  \<open>executeData\<close> and parsed by \<open>createPayloadsFromJSON\<close> at each call, and the cache is
  left as it was.
\<close>

theorem getMessages_cache:
  "(cachedMessages w = Some ms \<longrightarrow> getMessages E w ctd d = Returns (Inr (Some ms), w)) \<and>
   (binary (config w) \<and> cachedMessages w = None \<and> createPayloadsFromBin E d = Inr (Some ms) \<longrightarrow>
      getMessages E w ctd d =
        Returns (Inr (Some ms),
                 w\<lparr>trace := trace w @ [CreatePayloadsFromBin d], cachedMessages := Some ms\<rparr>)) \<and>
   (binary (config w) \<and> cachedMessages w = None \<and> createPayloadsFromBin E d = Inl e \<longrightarrow>
      getMessages E w ctd d =
        Returns (Inl e, w\<lparr>trace := trace w @ [CreatePayloadsFromBin d]\<rparr>)) \<and>
   (\<not> binary (config w) \<and> cachedMessages w = None \<and> executeData E ctd d = Returns (x, None) \<longrightarrow>
      getMessages E w ctd d =
        Returns (createPayloadsFromJSON E x,
                 w\<lparr>trace := trace w @ (if dryRun (config w) then [Println x] else [])
                                     @ [CreatePayloadsFromJSON x]\<rparr>))"
  by (auto simp: getMessages_def logged_def obind_def Let_def split: sum.splits)

text \<open>Two calls in binary mode with a decoder that succeeds: one decoding, the cache reused.\<close>

theorem getMessages_cache_witness:
  "binary (config binaryWorker) \<and> cachedMessages binaryWorker = None \<and>
   createPayloadsFromBin testEnv ''bob'' = Inr (Some [Message ''bob'']) \<and>
   obind (getMessages testEnv binaryWorker (testContext 1) ''bob'') (\<lambda>(r1, w1).
     obind (getMessages testEnv w1 (testContext 2) ''bob'') (\<lambda>(r2, w2).
       Returns (r1, r2, cachedMessages w2, trace w2))) =
   Returns (Inr (Some [Message ''bob'']), Inr (Some [Message ''bob'']), Some [Message ''bob''],
            [CreatePayloadsFromBin ''bob''])"
proof -
  have h: "binary (config binaryWorker)" "cachedMessages binaryWorker = None"
    "createPayloadsFromBin testEnv ''bob'' = Inr (Some [Message ''bob''])"
    "trace binaryWorker = []"
    by (simp_all add: binaryWorker_def testWorker_def testEnv_def one_message_def)
  define w1 where
    "w1 = binaryWorker\<lparr>trace := trace binaryWorker @ [CreatePayloadsFromBin ''bob''],
                       cachedMessages := Some [Message ''bob'']\<rparr>"
  have 1: "getMessages testEnv binaryWorker (testContext 1) ''bob'' =
      Returns (Inr (Some [Message ''bob'']), w1)"
    using getMessages_cache [of binaryWorker "[Message ''bob'']" testEnv "testContext 1" "''bob''"] h
    by (simp add: w1_def)
  have c: "cachedMessages w1 = Some [Message ''bob'']" by (simp add: w1_def)
  have 2: "getMessages testEnv w1 (testContext 2) ''bob'' = Returns (Inr (Some [Message ''bob'']), w1)"
    using getMessages_cache [of w1 "[Message ''bob'']" testEnv "testContext 2" "''bob''"] c
    by simp
  show ?thesis using h by (simp add: 1 2 obind_def c) (simp add: w1_def)
qed

text \<open>
  C5 as stated fails when the decoder fails: the first call does not populate the
  cache, and the second call decodes again.
\<close>

theorem getMessages_decodes_again_after_failure:
  "obind (getMessages corruptEnv binaryWorker (testContext 1) ''bob'') (\<lambda>(r1, w1).
     obind (getMessages corruptEnv w1 (testContext 2) ''bob'') (\<lambda>(r2, w2).
       Returns (cachedMessages w1, trace w2))) =
   Returns (None, [CreatePayloadsFromBin ''bob'', CreatePayloadsFromBin ''bob''])"
  by code_simp

subsection \<open>makeRequest\<close>

text \<open>
  Whatever the method, a dispatch that returns nil has made the unary call last; for a
  method that streams in neither direction, and a request number above 0, that call
  is the only one, on the message at index \<open>(RequestNumber - 1) mod inputCount\<close>.
\<close>

lemma dispatch_ends_with_unary:
  assumes "dispatch E w reqNum reqMD inputs = Returns (None, w')"
  shows "\<exists>input. trace w' \<noteq> [] \<and> last (trace w') = InvokeRpc reqMD input"
  using assms
  by (auto simp: dispatch_def Let_def obind_Returns trace_call split: if_splits)

lemma makeRequest_dispatch:
  assumes "makeRequest E w = Returns (None, w')" "\<not> dryRun (config w)"
  shows "\<exists>w1 reqMD inputs. dispatch E w1 (reqCounter w + 1) reqMD inputs = Returns (None, w')"
  using assms
  by (auto simp: makeRequest_def Let_def obind_Returns case_sum_Returns split: if_splits)

lemma makeRequest_ends_with_unary:
  assumes "makeRequest E w = Returns (None, w')" "\<not> dryRun (config w)"
  shows "\<exists>ctx input. trace w' \<noteq> [] \<and> last (trace w') = InvokeRpc ctx input"
  using makeRequest_dispatch [OF assms] dispatch_ends_with_unary by blast

lemma dispatch_unary:
  assumes "\<not> mtd_IsClientStreaming (mtd w)" "\<not> mtd_IsServerStreaming (mtd w)"
    and "inputs \<noteq> []" "0 \<le> sint (reqNum - 1)"
  shows "dispatch E w reqNum reqMD (Some inputs) =
           Returns (None, snd (call E w
             (InvokeRpc reqMD (inputs ! (nat (sint (reqNum - 1)) mod length inputs)))))"
proof -
  let ?k = "sint (reqNum - 1)" and ?n = "int (length inputs)"
  have n: "0 < ?n" using assms(3) by simp
  have eq: "?k smod ?n = ?k mod ?n" using assms(4) n by (simp add: smod_nonneg)
  have b: "0 \<le> ?k mod ?n" "?k mod ?n < ?n" using n by simp_all
  have i: "nat (?k mod ?n) = nat ?k mod length inputs"
    using assms(4) by (simp add: nat_mod_distrib)
  have ix: "index_expr inputs (?k smod ?n) = Returns (inputs ! (nat ?k mod length inputs))"
    using b by (simp add: index_expr_def eq i)
  show ?thesis
    using assms(1-3) ix
    by (simp add: dispatch_def Let_def obind_def slice_len_def)
qed


lemma makeClientStreamingRequest_mtd:
  assumes "makeClientStreamingRequest E w ctx input = Returns (r, w')"
  shows "mtd w' = mtd w"
  using assms
  by (auto simp: makeClientStreamingRequest_def call_logged mtd_logged obind_Returns
        dest!: clientStreamLoop_mtd split: if_splits)

lemma makeServerStreamingRequest_mtd:
  assumes "makeServerStreamingRequest E w ctx x = Returns (r, w')"
  shows "mtd w' = mtd w"
  using assms
  by (auto simp: makeServerStreamingRequest_def call_logged mtd_logged
        dest!: serverStreamLoop_mtd split: if_splits option.splits)









text \<open>
  For each of the four kinds of method, a call of \<open>makeRequest\<close> with one message
  resolved: the one RPC that went out, and for the two methods that stream in one
  direction, all that the worker called.
\<close>

lemma makeRequest_one_accepted_entry:
  "obind (makeRequest testEnv (objectWorker SayHello))
     (\<lambda>(err, w'). Returns (err, accepted testEnv SayHello (trace w'))) =
   Returns (None, [InvokeRpc None (Message ''{}'')])"
  "obind (makeRequest testEnv (objectWorker SayHelloCS))
     (\<lambda>(err, w'). Returns (err, accepted testEnv SayHelloCS (trace w'))) =
   Returns (None, [InvokeRpcClientStream None])"
  "obind (makeRequest testEnv (objectWorker SayHellos))
     (\<lambda>(err, w'). Returns (err, accepted testEnv SayHellos (trace w'))) =
   Returns (None, [InvokeRpcServerStream None (Message ''{}'')])"
  "obind (makeRequest testEnv (objectWorker SayHelloBidi))
     (\<lambda>(err, w'). Returns (err, accepted testEnv SayHelloBidi (trace w'))) =
   Returns (None, [InvokeRpcBidiStream None])"
  by code_simp+

lemma makeRequest_traces:
  "obind (makeRequest testEnv (objectWorker SayHelloCS)) (\<lambda>(err, w'). Returns (err, trace w')) =
   Returns (None,
     [CreatePayloadsFromJSON ''{}'',
      InvokeRpcClientStream None, SendMsg (Message ''{}''), CloseAndReceive,
      InvokeRpc None (Message ''{}'')])"
  "obind (makeRequest testEnv (objectWorker SayHellos)) (\<lambda>(err, w'). Returns (err, trace w')) =
   Returns (None,
     [CreatePayloadsFromJSON ''{}'',
      InvokeRpcServerStream None (Message ''{}''), RecvMsg,
      InvokeRpc None (Message ''{}'')])"
  by code_simp+








subsection \<open>runWorker\<close>

lemma calls_length:
  "calls E w k = Returns (rs, w') \<Longrightarrow> length rs = k"
proof (induction k arbitrary: w rs)
  case 0
  then show ?case by simp
next
  case (Suc k)
  then show ?case
    by (auto split: outcome.splits prod.splits)
qed

lemma runWorkerLoop_calls:
  "runWorkerLoop E n w i err =
     (case calls E w (length (takeWhile (\<lambda>j. \<not> stopCh E j) [i..<nat n])) of
        Returns (rs, w') \<Rightarrow>
          Returns (if i + length (takeWhile (\<lambda>j. \<not> stopCh E j) [i..<nat n]) < nat n then None
                   else foldl multierr_Append err rs, w')
      | Panics p \<Rightarrow> Panics p
      | Blocks \<Rightarrow> Blocks)"
proof (induction "nat n - i" arbitrary: i w err)
  case 0
  then have "\<not> int i < n" "\<not> i < nat n" by linarith+
  moreover from 0 have "[i..<nat n] = []" by simp
  ultimately show ?case
    by (subst runWorkerLoop.simps) simp
next
  case (Suc m)
  then have lt: "int i < n" "i < nat n" by linarith+
  then have upt: "[i..<nat n] = i # [Suc i..<nat n]" by (simp add: upt_conv_Cons)
  show ?case
  proof (cases "stopCh E i")
    case True
    with lt upt show ?thesis
      by (subst runWorkerLoop.simps) simp
  next
    case False
    have "m = nat n - Suc i" using Suc.hyps(2) by simp
    note IH = Suc.hyps(1) [OF this]
    show ?thesis
      using False lt upt
      by (subst runWorkerLoop.simps) (simp add: IH split: outcome.splits prod.splits)
  qed
qed

lemma multierr_Errors_Append:
  "multierr_Errors (multierr_Append l r) = multierr_Errors l @ multierr_Errors r"
  by (cases l; cases r) (simp_all add: multierr_Errors_def)

lemma multierr_Errors_None: "multierr_Errors None = []"
  by (simp add: multierr_Errors_def)

lemma multierr_Errors_foldl:
  "multierr_Errors (foldl multierr_Append err rs) =
     multierr_Errors err @ concat (map multierr_Errors rs)"
  by (induction rs arbitrary: err) (simp_all add: multierr_Errors_Append)

lemma multierr_Append_None: "(multierr_Append l r = None) = (l = None \<and> r = None)"
  by (cases l; cases r) simp_all

lemma foldl_multierr_None:
  "(foldl multierr_Append err rs = None) = (err = None \<and> list_all (\<lambda>r. r = None) rs)"
  by (induction rs arbitrary: err) (auto simp: multierr_Append_None)

lemma rounds_le: "rounds E n \<le> nat n"
  unfolding rounds_def using length_takeWhile_le [of "\<lambda>i. \<not> stopCh E i" "[0..<nat n]"] by simp

text \<open>
  C3, as the code has it. Let \<open>k\<close> be the number of iterations before the stop channel
  is first found ready, at most \<open>nReq\<close>. \<open>runWorker\<close> makes exactly these \<open>k\<close> calls of
  \<open>makeRequest\<close>, whatever errors they return, and it returns when they do (a call that
  panics or never returns ends the run in the same way). When the count was exhausted
  it returns the aggregate of the errors \<open>rs\<close> of the calls, which holds the errors of
  all calls and is nil when all are nil; when the stop channel was found ready it
  returns nil.
\<close>

theorem runWorker_aggregate:
  "rounds E (nReq w) \<le> nat (nReq w) \<and>
   runWorker E w =
     (case calls E w (rounds E (nReq w)) of
        Returns (rs, w') \<Rightarrow>
          Returns (if rounds E (nReq w) < nat (nReq w) then None
                   else foldl multierr_Append None rs, w')
      | Panics p \<Rightarrow> Panics p
      | Blocks \<Rightarrow> Blocks) \<and>
   (calls E w (rounds E (nReq w)) = Returns (rs, w') \<longrightarrow>
      length rs = rounds E (nReq w) \<and>
      multierr_Errors (foldl multierr_Append None rs) = concat (map multierr_Errors rs) \<and>
      (foldl multierr_Append None rs = None) = list_all (\<lambda>r. r = None) rs)"
proof (intro conjI impI)
  show "rounds E (nReq w) \<le> nat (nReq w)" by (rule rounds_le)
next
  show "runWorker E w =
     (case calls E w (rounds E (nReq w)) of
        Returns (rs, w') \<Rightarrow>
          Returns (if rounds E (nReq w) < nat (nReq w) then None
                   else foldl multierr_Append None rs, w')
      | Panics p \<Rightarrow> Panics p
      | Blocks \<Rightarrow> Blocks)"
    unfolding runWorker_def rounds_def
    using runWorkerLoop_calls [of E "nReq w" w 0 None]
    by (simp cong: outcome.case_cong)
next
  assume "calls E w (rounds E (nReq w)) = Returns (rs, w')"
  then show "length rs = rounds E (nReq w)" by (rule calls_length)
next
  show "multierr_Errors (foldl multierr_Append None rs) = concat (map multierr_Errors rs)"
    by (simp add: multierr_Errors_foldl multierr_Errors_None)
next
  show "(foldl multierr_Append None rs = None) = list_all (\<lambda>r. r = None) rs"
    by (simp add: foldl_multierr_None)
qed

text \<open>Two calls without payload, never stopped: the aggregate of the two errors.\<close>

theorem runWorker_aggregate_witness:
  "returned (calls testEnv noDataWorker (rounds testEnv (nReq noDataWorker))) =
     Returns [Some (Error ''no data provided for request''),
              Some (Error ''no data provided for request'')] \<and>
   returned (runWorker testEnv noDataWorker) =
     Returns (Some (MultiError [Error ''no data provided for request'',
                                Error ''no data provided for request'']))"
proof -
  have r: "rounds testEnv (nReq noDataWorker) = 2"
    by code_simp
  have "returned (calls testEnv noDataWorker 2) =
      Returns [Some (Error ''no data provided for request''),
               Some (Error ''no data provided for request'')]"
    by code_simp
  then obtain w' where c: "calls testEnv noDataWorker 2 =
      Returns ([Some (Error ''no data provided for request''),
                Some (Error ''no data provided for request'')], w')"
    by (auto simp: returned_Returns)
  have n: "nat (nReq noDataWorker) = 2"
    by (simp add: noDataWorker_def testWorker_def)
  from runWorker_aggregate [of testEnv noDataWorker _ w'] c r n
  show ?thesis by (simp add: returned_def obind_def)
qed

text \<open>
  C3 as stated fails at the stop: with the stop channel ready at the second iteration,
  the first call has returned an error, and \<open>runWorker\<close> returns nil.
\<close>

theorem runWorker_stop_discards_errors:
  "returned (calls stopEnv noDataWorker 1) = Returns [Some (Error ''no data provided for request'')] \<and>
   returned (runWorker stopEnv noDataWorker) = Returns None"
  by code_simp

end
